theory Spec2Isabelle
  imports Main
begin

section \<open>Go library functions used by the plugin\<close>

text \<open>
  A Go \<open>string\<close> and a \<open>[]byte\<close> are both byte sequences; both are modelled as
  \<open>string\<close> (a list of 8-bit characters). Go's \<open>int\<close> is modelled as \<open>int\<close>: the only
  arithmetic the plugin performs on one is \<open>GenericTrap + 1\<close> under the guard
  \<open>0 \<le> GenericTrap < 6\<close>, which cannot overflow.
\<close>

definition HasPrefix :: "string \<Rightarrow> string \<Rightarrow> bool" where
  \<comment> \<open>\<open>strings.HasPrefix(s, prefix)\<close>\<close>
  "HasPrefix s p = (take (length p) s = p)"

fun Index :: "string \<Rightarrow> string \<Rightarrow> int" where
  \<comment> \<open>\<open>strings.Index(s, sep)\<close>: the offset of the first occurrence of \<open>sep\<close>, or \<open>-1\<close>\<close>
  "Index [] sep = (if sep = [] then 0 else - 1)"
| "Index (c # cs) sep =
     (if HasPrefix (c # cs) sep then 0
      else if Index cs sep = - 1 then - 1
      else Index cs sep + 1)"

definition SplitN2 :: "string \<Rightarrow> string \<Rightarrow> string list" where
  \<comment> \<open>\<open>strings.SplitN(s, sep, 2)\<close> for a non-empty separator: at most one cut, at the first
      occurrence of \<open>sep\<close>\<close>
  "SplitN2 s sep =
     (if Index s sep = - 1 then [s]
      else [take (nat (Index s sep)) s, drop (nat (Index s sep) + length sep) s])"

definition digit :: "nat \<Rightarrow> char" where
  "digit d = char_of (48 + d)"

fun uitoa :: "nat \<Rightarrow> string" where
  "uitoa n = (if n < 10 then [digit n] else uitoa (n div 10) @ [digit (n mod 10)])"

declare uitoa.simps [simp del]

definition Itoa :: "int \<Rightarrow> string" where
  \<comment> \<open>\<open>strconv.Itoa\<close>: base-10 rendering, with a leading minus sign for negatives\<close>
  "Itoa i = (if i < 0 then CHR ''-'' # uitoa (nat (- i)) else uitoa (nat i))"

definition lowerASCII :: "char \<Rightarrow> char" where
  "lowerASCII c =
     (if (65::nat) \<le> of_char c \<and> of_char c \<le> (90::nat) then char_of (of_char c + (32::nat)) else c)"

definition isASCII :: "string \<Rightarrow> bool" where
  "isASCII s = list_all (\<lambda>c. of_char c < (128::nat)) s"

definition ToLower :: "(string \<Rightarrow> string) \<Rightarrow> string \<Rightarrow> string" where
  \<comment> \<open>\<open>strings.ToLower\<close>. A string of ASCII bytes is lowered byte by byte. Any other string
      goes through \<open>strings.Map(unicode.ToLower, s)\<close>, whose Unicode tables are outside the
      repository: that path is the parameter \<open>uni\<close>.\<close>
  "ToLower uni s = (if isASCII s then map lowerASCII s else uni s)"

subsection \<open>Errors\<close>

datatype error =
    ErrTimeout                      \<comment> \<open>the external command did not finish in time\<close>
  | ExecFailed string               \<comment> \<open>any other failure of the external command\<close>
  | ScanError                       \<comment> \<open>\<open>scaner: bufio.Scanner: token too long\<close>\<close>
  | NotFound                        \<comment> \<open>\<open>not found\<close>\<close>
  | UnknownSecLevel string
  | UnknownAuthProtocol string
  | UnknownPrivProtocol string
  | InvalidServiceAddress string
  | UnknownProtocol string string
  | ListenError string

subsection \<open>bufio.Scanner over the whole output, with the default line splitter\<close>

definition MaxScanTokenSize :: nat where
  "MaxScanTokenSize = 64 * 1024"

definition newline :: char where
  "newline = CHR 0x0A"

definition dropCR :: "string \<Rightarrow> string" where
  \<comment> \<open>\<open>bufio.dropCR\<close>: drop one trailing carriage return\<close>
  "dropCR data = (if data \<noteq> [] \<and> last data = CHR 0x0D then butlast data else data)"

record Scanner =
  ok :: bool           \<comment> \<open>what the first \<open>Scan()\<close> returned\<close>
  Err :: bool          \<comment> \<open>whether \<open>Err()\<close> is non-nil afterwards\<close>
  Text :: string       \<comment> \<open>what \<open>Text()\<close> returns afterwards\<close>

definition Scan :: "string \<Rightarrow> Scanner" where
  \<comment> \<open>One call of \<open>Scan()\<close> on a fresh \<open>bufio.NewScanner(bytes.NewBuffer(out))\<close>.
      The scanner's buffer grows up to \<open>MaxScanTokenSize\<close> bytes. A line feed among the
      first \<open>MaxScanTokenSize\<close> bytes ends the first token. Without one, a full buffer is
      the error \<open>ErrTooLong\<close>; a shorter input is returned whole at end of input, and the
      empty input gives no token (\<open>Scan\<close> false, \<open>Err\<close> nil, \<open>Text\<close> empty).\<close>
  "Scan out =
     (if newline \<in> set (take MaxScanTokenSize out)
      then \<lparr>ok = True, Err = False, Text = dropCR (takeWhile (\<lambda>c. c \<noteq> newline) out)\<rparr>
      else if MaxScanTokenSize \<le> length out
      then \<lparr>ok = False, Err = True, Text = []\<rparr>
      else \<lparr>ok = (out \<noteq> []), Err = False, Text = dropCR out\<rparr>)"

section \<open>Packets, log lines and metric events\<close>

record mibEntry =
  mibName :: string
  oidText :: string

datatype SnmpVersion = Version1 | Version2c | Version3

fun VersionString :: "SnmpVersion \<Rightarrow> string" where
  \<comment> \<open>\<open>gosnmp.SnmpVersion.String()\<close>\<close>
  "VersionString Version1 = ''1''"
| "VersionString Version2c = ''2c''"
| "VersionString Version3 = ''3''"

datatype Asn1BER =
    ObjectIdentifier
  | OctetString
  | OtherBER nat    \<comment> \<open>every other type tag of \<open>gosnmp.Asn1BER\<close>\<close>

datatype Value =
    VString string    \<comment> \<open>dynamic type \<open>string\<close>\<close>
  | VBytes string     \<comment> \<open>dynamic type \<open>[]byte\<close>\<close>
  | VInt int          \<comment> \<open>dynamic type \<open>int\<close>\<close>
  | VOther string     \<comment> \<open>any other dynamic type (or nil), carried as its \<open>%v\<close> rendering\<close>

fun joinSp :: "string list \<Rightarrow> string" where
  "joinSp [] = []"
| "joinSp [x] = x"
| "joinSp (x # y # ys) = x @ '' '' @ joinSp (y # ys)"

fun Sprintf_v :: "Value \<Rightarrow> string" where
  \<comment> \<open>\<open>fmt.Sprintf("%v", v.Value)\<close>\<close>
  "Sprintf_v (VString x) = x"
| "Sprintf_v (VBytes b) = ''['' @ joinSp (map (\<lambda>c. uitoa (of_char c)) b) @ '']''"
| "Sprintf_v (VInt i) = Itoa i"
| "Sprintf_v (VOther r) = r"

record SnmpPDU =
  Name :: string
  Type :: Asn1BER
  Value :: Value

record SnmpPacket =
  PacketVersion :: SnmpVersion    \<comment> \<open>\<open>packet.Version\<close>\<close>
  Variables :: "SnmpPDU list"
  Enterprise :: string
  AgentAddress :: string
  GenericTrap :: int
  SpecificTrap :: int
  Timestamp :: nat                \<comment> \<open>a Go \<open>uint\<close>, only stored\<close>

datatype logEntry =
    ErrResolvingV1OID error           \<comment> \<open>\<open>Error resolving V1 OID: %v\<close>\<close>
  | ErrGettingValueOID                \<comment> \<open>\<open>getting value OID\<close>\<close>
  | ErrResolvingValueOID error        \<comment> \<open>\<open>resolving value OID: %s\<close>\<close>
  | ErrResolvingOID error             \<comment> \<open>\<open>resolving OID: %s\<close>\<close>
  | ErrParsingPacket SnmpPacket       \<comment> \<open>\<open>parsing packet: %+v\<close>\<close>
  | InfoListening string              \<comment> \<open>\<open>Listening on %s\<close>\<close>

datatype fieldValue = FInt int | FUint nat

record metric =
  measurement :: string
  mfields :: "string \<rightharpoonup> fieldValue"
  mtags :: "string \<rightharpoonup> string"
  tm :: nat

section \<open>The listener's parameters\<close>

datatype SnmpV3SecurityModel = NoSecurityModel | UserSecurityModel
datatype SnmpV3MsgFlags = NoAuthNoPriv | AuthNoPriv | AuthPriv
datatype SnmpV3AuthProtocol = NoAuth | MD5 | SHA
datatype SnmpV3PrivProtocol = NoPriv | DES | AES | AES192 | AES256 | AES192C | AES256C

record UsmSecurityParameters =
  UserName :: string
  PrivacyProtocol :: SnmpV3PrivProtocol
  PrivacyPassphrase :: string
  AuthenticationPassphrase :: string
  AuthenticationProtocol :: SnmpV3AuthProtocol

record GoSNMP =
  ParamsVersion :: SnmpVersion      \<comment> \<open>\<open>Params.Version\<close>\<close>
  SecurityModel :: SnmpV3SecurityModel
  MsgFlags :: SnmpV3MsgFlags
  SecurityParameters :: "UsmSecurityParameters option"

definition Default :: GoSNMP where
  \<comment> \<open>the fields of \<open>gosnmp.Default\<close> that \<open>Start\<close> touches\<close>
  "Default = \<lparr>ParamsVersion = Version2c, SecurityModel = NoSecurityModel,
              MsgFlags = NoAuthNoPriv, SecurityParameters = None\<rparr>"

record TrapListener =
  Params :: GoSNMP
  listenCalls :: "string list"   \<comment> \<open>the addresses \<open>Listen\<close> was started on, oldest first\<close>

section \<open>The plugin state\<close>

text \<open>
  \<open>SnmpTrap\<close> with the fields of the Go struct. The logger and the accumulator are
  the lists of what was handed to them, oldest first. \<open>execCalls\<close> is not a field of
  the Go struct: it records the argument list of every call of \<open>execCmd\<close>, oldest
  first, the way a test double wrapping \<open>execCmd\<close> counts invocations. \<open>cacheLock\<close>
  is held for the whole of \<open>lookup\<close>, \<open>clear\<close> and \<open>load\<close>, so each of them is one
  atomic state transition. \<open>makeHandlerWrapper\<close> is nil outside the unit tests and is
  left out.
\<close>

record SnmpTrap =
  ServiceAddress :: string
  Timeout :: nat
  Version :: string
  SecLevel :: string
  SecName :: string
  AuthProtocol :: string
  AuthPassword :: string
  PrivProtocol :: string
  PrivPassword :: string
  acc :: "metric list"
  listener :: "TrapListener option"
  Log :: "logEntry list"
  cache :: "string \<rightharpoonup> mibEntry"
  execCmd :: "nat \<Rightarrow> string \<Rightarrow> string list \<Rightarrow> error + string"
  execCalls :: "string list list"

section \<open>The OID resolver and its cache\<close>

definition translateArgs :: "string \<Rightarrow> string list" where
  \<comment> \<open>what \<open>execCalls\<close> records for one translation of \<open>oid\<close>: the command and its
      arguments\<close>
  "translateArgs oid = [''snmptranslate'', ''-Td'', ''-Ob'', ''-m'', ''all'', oid]"

definition snmptranslate :: "SnmpTrap \<Rightarrow> string \<Rightarrow> (error + mibEntry) \<times> SnmpTrap" where
  "snmptranslate s oid =
     (let s' = s\<lparr>execCalls := execCalls s @ [translateArgs oid]\<rparr>
      in case execCmd s (Timeout s) ''snmptranslate'' [''-Td'', ''-Ob'', ''-m'', ''all'', oid] of
           Inl err \<Rightarrow> (Inl err, s')
         | Inr out \<Rightarrow>
             (let scanner = Scan out
              in if \<not> ok scanner \<and> Err scanner then (Inl ScanError, s')
                 else
                   (let line = Text scanner; i = Index line ''::''
                    in if i = - 1 then (Inl NotFound, s')
                       else (Inr \<lparr>mibName = take (nat i) line,
                                  oidText = drop (nat i + 2) line\<rparr>, s'))))"

definition lookup :: "SnmpTrap \<Rightarrow> string \<Rightarrow> (error + mibEntry) \<times> SnmpTrap" where
  "lookup s oid =
     (case cache s oid of
        None \<Rightarrow>
          (case snmptranslate s oid of
             (Inr e, s') \<Rightarrow> (Inr e, s'\<lparr>cache := (cache s')(oid \<mapsto> e)\<rparr>)
           | (Inl err, s') \<Rightarrow> (Inl err, s'))
      | Some e \<Rightarrow> (Inr e, s))"

definition clear :: "SnmpTrap \<Rightarrow> SnmpTrap" where
  "clear s = s\<lparr>cache := Map.empty\<rparr>"

definition load :: "SnmpTrap \<Rightarrow> string \<Rightarrow> mibEntry \<Rightarrow> SnmpTrap" where
  "load s oid e = s\<lparr>cache := (cache s)(oid \<mapsto> e)\<rparr>"

fun lookups ::
    "SnmpTrap \<Rightarrow> ((nat \<Rightarrow> string \<Rightarrow> string list \<Rightarrow> error + string) \<times> string) list \<Rightarrow> SnmpTrap" where
  \<comment> \<open>a history of further calls of \<open>lookup\<close>, results discarded; each call comes with
      the behaviour the external command has at that moment\<close>
  "lookups s [] = s"
| "lookups s ((ex, oid) # calls) = lookups (snd (lookup (s\<lparr>execCmd := ex\<rparr>) oid)) calls"

section \<open>The trap handler\<close>

type_synonym tagmap = "string \<rightharpoonup> string"
type_synonym fieldmap = "string \<rightharpoonup> fieldValue"

text \<open>
  How a piece of the handler ends: it falls through to the next statement (\<open>Next\<close>),
  it returns from the handler (\<open>Return\<close>), or it panics (\<open>Panic\<close>); each carries the
  plugin state reached.
\<close>

datatype 'a flow = Next 'a | Return SnmpTrap | Panic SnmpTrap

definition Errorf :: "SnmpTrap \<Rightarrow> logEntry \<Rightarrow> SnmpTrap" where
  \<comment> \<open>\<open>s.Log.Errorf\<close>\<close>
  "Errorf s l = s\<lparr>Log := Log s @ [l]\<rparr>"

definition Infof :: "SnmpTrap \<Rightarrow> logEntry \<Rightarrow> SnmpTrap" where
  \<comment> \<open>\<open>s.Log.Infof\<close>\<close>
  "Infof s l = s\<lparr>Log := Log s @ [l]\<rparr>"

definition setTrapOid :: "tagmap \<Rightarrow> string \<Rightarrow> mibEntry \<Rightarrow> tagmap" where
  "setTrapOid tgs oid e = tgs(''oid'' \<mapsto> oid, ''name'' \<mapsto> oidText e, ''mib'' \<mapsto> mibName e)"

definition trapOid :: "SnmpPacket \<Rightarrow> string" where
  \<comment> \<open>the local \<open>trapOid\<close> of a version 1 packet, after RFC 2576 3.1; empty when none is
      derived\<close>
  "trapOid packet =
     (if GenericTrap packet \<ge> 0 \<and> GenericTrap packet < 6
      then ''.1.3.6.1.6.3.1.1.5.'' @ Itoa (GenericTrap packet + 1)
      else if GenericTrap packet = 6
      then Enterprise packet @ ''.0.'' @ Itoa (SpecificTrap packet)
      else [])"

definition v1Translate ::
    "SnmpTrap \<Rightarrow> SnmpPacket \<Rightarrow> tagmap \<Rightarrow> fieldmap \<Rightarrow> (SnmpTrap \<times> tagmap \<times> fieldmap) flow" where
  \<comment> \<open>the block \<open>if packet.Version == gosnmp.Version1 { ... }\<close>\<close>
  "v1Translate s packet tgs flds =
     (if PacketVersion packet = Version1 then
        (case (if trapOid packet \<noteq> [] then
                 (case lookup s (trapOid packet) of
                    (Inl err, s') \<Rightarrow> Return (Errorf s' (ErrResolvingV1OID err))
                  | (Inr e, s') \<Rightarrow> Next (s', setTrapOid tgs (trapOid packet) e))
               else Next (s, tgs)) of
           Next (s', tgs') \<Rightarrow>
             Next (s',
                   (if AgentAddress packet \<noteq> [] then tgs'(''agent_address'' \<mapsto> AgentAddress packet)
                    else tgs'),
                   flds(''sysUpTimeInstance'' \<mapsto> FUint (Timestamp packet)))
         | Return s' \<Rightarrow> Return s'
         | Panic s' \<Rightarrow> Panic s')
      else Next (s, tgs, flds))"

definition sysUpTimeOID :: string where
  "sysUpTimeOID = ''.1.3.6.1.2.1.1.3.0''"

definition snmpTrapOID :: string where
  "snmpTrapOID = ''.1.3.6.1.6.3.1.1.4.1.0''"

definition walkVar ::
    "SnmpPDU \<Rightarrow> SnmpTrap \<times> string \<times> tagmap \<Rightarrow> (SnmpTrap \<times> string \<times> tagmap) flow" where
  \<comment> \<open>one iteration of \<open>for _, v := range packet.Variables\<close>, on the plugin state, the local
      \<open>metricName\<close> and the local \<open>tags\<close>\<close>
  "walkVar v st =
     (case st of (s, metricName, tgs) \<Rightarrow>
        if Name v = sysUpTimeOID then Next (s, metricName, tgs)
        else
          (case Type v of
             ObjectIdentifier \<Rightarrow>
               (case Value v of
                  VString val \<Rightarrow>
                    (case lookup s val of
                       (Inl err, s') \<Rightarrow> Return (Errorf s' (ErrResolvingValueOID err))
                     | (Inr e, s') \<Rightarrow>
                         if Name v = snmpTrapOID \<and> metricName = []
                         then Next (s', oidText e, tgs(''oid'' \<mapsto> val, ''mib'' \<mapsto> mibName e))
                         else Next (s', metricName,
                                    tgs(''oid'' \<mapsto> val, ''name'' \<mapsto> oidText e, ''mib'' \<mapsto> mibName e)))
                | _ \<Rightarrow> Return (Errorf s ErrGettingValueOID))
           | OctetString \<Rightarrow>
               (case lookup s (Name v) of
                  (Inl err, s') \<Rightarrow> Return (Errorf s' (ErrResolvingOID err))
                | (Inr e, s') \<Rightarrow>
                    (case Value v of
                       VBytes bytes \<Rightarrow> Next (s', metricName, tgs(oidText e \<mapsto> bytes))
                     | _ \<Rightarrow> Panic s'))
           | OtherBER _ \<Rightarrow>
               (case lookup s (Name v) of
                  (Inl err, s') \<Rightarrow> Return (Errorf s' (ErrResolvingOID err))
                | (Inr e, s') \<Rightarrow> Next (s', metricName, tgs(oidText e \<mapsto> Sprintf_v (Value v))))))"

fun walk ::
    "SnmpPDU list \<Rightarrow> SnmpTrap \<times> string \<times> tagmap \<Rightarrow> (SnmpTrap \<times> string \<times> tagmap) flow" where
  "walk [] st = Next st"
| "walk (v # vs) st =
     (case walkVar v st of
        Next st' \<Rightarrow> walk vs st'
      | Return s' \<Rightarrow> Return s'
      | Panic s' \<Rightarrow> Panic s')"

definition AddFields :: "SnmpTrap \<Rightarrow> string \<Rightarrow> fieldmap \<Rightarrow> tagmap \<Rightarrow> nat \<Rightarrow> SnmpTrap" where
  \<comment> \<open>\<open>s.acc.AddFields\<close>\<close>
  "AddFields s nm flds tgs t =
     s\<lparr>acc := acc s @ [\<lparr>measurement = nm, mfields = flds, mtags = tgs, tm = t\<rparr>]\<rparr>"

definition handler :: "SnmpTrap \<Rightarrow> SnmpPacket \<Rightarrow> string \<Rightarrow> nat \<Rightarrow> SnmpTrap flow" where
  \<comment> \<open>the function \<open>makeTrapHandler(s)\<close> returns, applied to a packet; \<open>source\<close> is
      \<open>addr.IP.String()\<close> and \<open>now\<close> is what \<open>s.timeFunc()\<close> returns\<close>
  "handler s packet source now =
     (case v1Translate s packet
             [''version'' \<mapsto> VersionString (PacketVersion packet), ''source'' \<mapsto> source]
             Map.empty of
        Next (s1, tgs1, flds) \<Rightarrow>
          (case walk (Variables packet) (s1, [], tgs1) of
             Next (s2, metricName, tgs2) \<Rightarrow>
               if metricName = [] then Return (Errorf s2 (ErrParsingPacket packet))
               else Return (AddFields s2 ''snmp_trap'' (flds(metricName \<mapsto> FInt 1)) tgs2 now)
           | Return s' \<Rightarrow> Return s'
           | Panic s' \<Rightarrow> Panic s')
      | Return s' \<Rightarrow> Return s'
      | Panic s' \<Rightarrow> Panic s')"

section \<open>Starting the listener\<close>

definition secLevel :: "(string \<Rightarrow> string) \<Rightarrow> string \<Rightarrow> error + SnmpV3MsgFlags" where
  \<comment> \<open>\<open>switch strings.ToLower(s.SecLevel)\<close>\<close>
  "secLevel uni x =
     (if ToLower uni x = ''noauthnopriv'' \<or> ToLower uni x = [] then Inr NoAuthNoPriv
      else if ToLower uni x = ''authnopriv'' then Inr AuthNoPriv
      else if ToLower uni x = ''authpriv'' then Inr AuthPriv
      else Inl (UnknownSecLevel x))"

definition authProtocol :: "(string \<Rightarrow> string) \<Rightarrow> string \<Rightarrow> error + SnmpV3AuthProtocol" where
  \<comment> \<open>\<open>switch strings.ToLower(s.AuthProtocol)\<close>\<close>
  "authProtocol uni x =
     (if ToLower uni x = ''md5'' then Inr MD5
      else if ToLower uni x = ''sha'' then Inr SHA
      else if ToLower uni x = [] then Inr NoAuth
      else Inl (UnknownAuthProtocol x))"

definition privProtocol :: "(string \<Rightarrow> string) \<Rightarrow> string \<Rightarrow> error + SnmpV3PrivProtocol" where
  \<comment> \<open>\<open>switch strings.ToLower(s.PrivProtocol)\<close>\<close>
  "privProtocol uni x =
     (if ToLower uni x = ''aes'' then Inr AES
      else if ToLower uni x = ''des'' then Inr DES
      else if ToLower uni x = ''aes192'' then Inr AES192
      else if ToLower uni x = ''aes192c'' then Inr AES192C
      else if ToLower uni x = ''aes256'' then Inr AES256
      else if ToLower uni x = ''aes256c'' then Inr AES256C
      else if ToLower uni x = [] then Inr NoPriv
      else Inl (UnknownPrivProtocol x))"

definition setParams :: "SnmpTrap \<Rightarrow> GoSNMP \<Rightarrow> SnmpTrap" where
  \<comment> \<open>an assignment to \<open>s.listener.Params\<close>, on the listener \<open>Start\<close> has just created\<close>
  "setParams s p = s\<lparr>listener := Some \<lparr>Params = p, listenCalls = []\<rparr>\<rparr>"

definition versionOf :: "string \<Rightarrow> SnmpVersion" where
  \<comment> \<open>\<open>switch s.Version\<close>\<close>
  "versionOf v =
     (if v = ''3'' then Version3
      else if v = ''2c'' then Version2c
      else if v = ''1'' then Version1
      else Version2c)"

definition v3Params :: "(string \<Rightarrow> string) \<Rightarrow> SnmpTrap \<Rightarrow> GoSNMP \<Rightarrow> error option \<times> GoSNMP" where
  \<comment> \<open>the block \<open>if s.listener.Params.Version == gosnmp.Version3 { ... }\<close>: the error it
      returns from \<open>Start\<close> with (\<open>None\<close> when it falls through) and the parameters as
      assigned so far\<close>
  "v3Params uni s p =
     (let p1 = p\<lparr>SecurityModel := UserSecurityModel\<rparr>
      in case secLevel uni (SecLevel s) of
           Inl err \<Rightarrow> (Some err, p1)
         | Inr flags \<Rightarrow>
             (let p2 = p1\<lparr>MsgFlags := flags\<rparr>
              in case authProtocol uni (AuthProtocol s) of
                   Inl err \<Rightarrow> (Some err, p2)
                 | Inr authenticationProtocol \<Rightarrow>
                     (case privProtocol uni (PrivProtocol s) of
                        Inl err \<Rightarrow> (Some err, p2)
                      | Inr privacyProtocol \<Rightarrow>
                          (None,
                           p2\<lparr>SecurityParameters := Some
                                \<lparr>UserName = SecName s,
                                 PrivacyProtocol = privacyProtocol,
                                 PrivacyPassphrase = PrivPassword s,
                                 AuthenticationPassphrase = AuthPassword s,
                                 AuthenticationProtocol = authenticationProtocol\<rparr>\<rparr>))))"

definition Start ::
    "(string \<Rightarrow> string) \<Rightarrow> (string \<Rightarrow> error option) \<Rightarrow> SnmpTrap \<Rightarrow> error option \<times> SnmpTrap" where
  \<comment> \<open>\<open>Start\<close> returns its error (\<open>None\<close> for nil) and the plugin state. The accumulator
      handed to \<open>Start\<close> is the one the state carries. \<open>listen addr\<close> stands for the
      goroutine and the \<open>select\<close> on \<open>errCh\<close>: it is \<open>None\<close> when the listener signals that
      it is listening, and \<open>Some err\<close> when \<open>Listen(addr)\<close> returns \<open>err\<close> first.\<close>
  "Start uni listen s =
     (let p = Default\<lparr>ParamsVersion := versionOf (Version s)\<rparr>
      in case (if versionOf (Version s) = Version3 then v3Params uni s p else (None, p)) of
           (Some err, p') \<Rightarrow> (Some err, setParams s p')
         | (None, p') \<Rightarrow>
             (let s1 = setParams s p'; split = SplitN2 (ServiceAddress s) ''://''
              in if length split \<noteq> 2 then (Some (InvalidServiceAddress (ServiceAddress s)), s1)
                 else if split ! 0 \<noteq> ''udp''
                 then (Some (UnknownProtocol (split ! 0) (ServiceAddress s)), s1)
                 else
                   (let s2 = s1\<lparr>listener := Some \<lparr>Params = p', listenCalls = [split ! 1]\<rparr>\<rparr>
                    in case listen (split ! 1) of
                         None \<Rightarrow> (None, Infof s2 (InfoListening (ServiceAddress s)))
                       | Some err \<Rightarrow> (Some err, s2))))"


section \<open>Notions used to state the properties\<close>

definition digitVal :: "char \<Rightarrow> nat" where
  "digitVal c = of_char c - 48"

definition decimalValue :: "string \<Rightarrow> nat" where
  \<comment> \<open>the number a string of decimal digits denotes\<close>
  "decimalValue ds = foldl (\<lambda>a c. 10 * a + digitVal c) 0 ds"

fun finalState :: "SnmpTrap flow \<Rightarrow> SnmpTrap" where
  "finalState (Next s) = s"
| "finalState (Return s) = s"
| "finalState (Panic s) = s"


section \<open>Example inputs\<close>

definition exampleExec :: "nat \<Rightarrow> string \<Rightarrow> string list \<Rightarrow> error + string" where
  \<comment> \<open>an external command that knows three OIDs\<close>
  "exampleExec t arg0 args =
     (if last args = ''.1.3.6.1.6.3.1.1.5.3''
      then Inr ''IF-MIB::linkDown\<newline>linkDown NOTIFICATION-TYPE\<newline>''
      else if last args = ''.1.3.6.1.6.3.1.1.5.1''
      then Inr ''SNMPv2-MIB::coldStart\<newline>''
      else if last args = ''.1.3.6.1.2.1.1.5.0''
      then Inr ''SNMPv2-MIB::sysName.0\<newline>''
      else Inl (ExecFailed ''exit status 2''))"

definition s0 :: SnmpTrap where
  \<comment> \<open>the plugin as its factory and \<open>Init\<close> leave it, with \<open>exampleExec\<close> for \<open>execCmd\<close>\<close>
  "s0 = \<lparr>ServiceAddress = ''udp://:162'', Timeout = 5, Version = ''2c'',
         SecLevel = [], SecName = [], AuthProtocol = [], AuthPassword = [],
         PrivProtocol = [], PrivPassword = [],
         acc = [], listener = None, Log = [], cache = Map.empty,
         execCmd = exampleExec, execCalls = []\<rparr>"

definition linkDownOID :: string where
  "linkDownOID = ''.1.3.6.1.6.3.1.1.5.3''"

definition linkDown :: mibEntry where
  "linkDown = \<lparr>mibName = ''IF-MIB'', oidText = ''linkDown''\<rparr>"

definition trapVar :: SnmpPDU where
  "trapVar = \<lparr>Name = snmpTrapOID, Type = ObjectIdentifier, Value = VString linkDownOID\<rparr>"



definition tcpCfg :: SnmpTrap where
  \<comment> \<open>a configuration asking for a stream transport\<close>
  "tcpCfg = s0\<lparr>ServiceAddress := ''tcp://:162''\<rparr>"



definition s0resolved :: SnmpTrap where
  \<comment> \<open>\<open>s0\<close> after one successful translation of \<open>linkDownOID\<close>\<close>
  "s0resolved = s0\<lparr>execCalls := [translateArgs linkDownOID], cache := [linkDownOID \<mapsto> linkDown]\<rparr>"



definition v1odd :: SnmpPacket where
  \<comment> \<open>a version 1 trap with a generic-trap code outside the defined range\<close>
  "v1odd = \<lparr>PacketVersion = Version1, Variables = [trapVar], Enterprise = ''.1.2.3'',
            AgentAddress = ''10.0.0.1'', GenericTrap = 7, SpecificTrap = 0, Timestamp = 42\<rparr>"

definition sysNameVar :: SnmpPDU where
  \<comment> \<open>an octet-string variable of a known OID whose value is a string, not a byte slice\<close>
  "sysNameVar = \<lparr>Name = ''.1.3.6.1.2.1.1.5.0'', Type = OctetString, Value = VString ''router1''\<rparr>"

definition unknownVar :: SnmpPDU where
  \<comment> \<open>an octet-string variable of an OID the external command does not know, whose value
      is a string\<close>
  "unknownVar = \<lparr>Name = ''.1.2.3'', Type = OctetString, Value = VString ''router1''\<rparr>"

definition v2sysName :: SnmpPacket where
  "v2sysName = \<lparr>PacketVersion = Version2c, Variables = [trapVar, sysNameVar], Enterprise = [],
                AgentAddress = [], GenericTrap = 0, SpecificTrap = 0, Timestamp = 0\<rparr>"

definition v2unknown :: SnmpPacket where
  "v2unknown = \<lparr>PacketVersion = Version2c, Variables = [unknownVar], Enterprise = [],
                AgentAddress = [], GenericTrap = 0, SpecificTrap = 0, Timestamp = 0\<rparr>"

definition longLine :: string where
  \<comment> \<open>a first line of \<open>8 + 65536\<close> bytes with a separator in it and no line feed\<close>
  "longLine = ''IF-MIB::'' @ replicate 65536 (CHR ''a'')"

definition longExec :: "nat \<Rightarrow> string \<Rightarrow> string list \<Rightarrow> error + string" where
  "longExec t arg0 args = Inr longLine"


section \<open>Decimal rendering\<close>

lemma uitoa_digit: "n < 10 \<Longrightarrow> uitoa n = [digit n]"
  by (simp add: uitoa.simps)

lemma uitoa_step: "10 \<le> n \<Longrightarrow> uitoa n = uitoa (n div 10) @ [digit (n mod 10)]"
  by (subst uitoa.simps) simp

lemma digitVal_digit: "d < 10 \<Longrightarrow> digitVal (digit d) = d"
  by (simp add: digitVal_def digit_def)

lemma decimalValue_uitoa: "decimalValue (uitoa n) = n"
proof (induction n rule: uitoa.induct)
  case (1 n)
  show ?case
  proof (cases "n < 10")
    case True
    then show ?thesis by (simp add: uitoa_digit decimalValue_def digitVal_digit)
  next
    case False
    with 1 have "decimalValue (uitoa (n div 10)) = n div 10" by simp
    with False show ?thesis
      by (simp add: uitoa_step decimalValue_def digitVal_digit)
  qed
qed

lemma decimalValue_Itoa: "0 \<le> i \<Longrightarrow> decimalValue (Itoa i) = nat i"
  by (simp add: Itoa_def decimalValue_uitoa)

lemma Itoa_negative: "i < 0 \<Longrightarrow> Itoa i = CHR ''-'' # Itoa (- i)"
  by (simp add: Itoa_def)







section \<open>The scanner and the separator search\<close>

lemma Scan_short:
  assumes "length out < MaxScanTokenSize"
  shows "Scan out = \<lparr>ok = (out \<noteq> []), Err = False, Text = dropCR (takeWhile (\<lambda>c. c \<noteq> newline) out)\<rparr>"
proof (cases "newline \<in> set out")
  case True
  then have "out \<noteq> []" by auto
  with True assms show ?thesis by (simp add: Scan_def)
next
  case False
  then have tw: "takeWhile (\<lambda>c. c \<noteq> newline) out = out"
    by (auto simp: takeWhile_eq_all_conv)
  from False have "newline \<notin> set (take MaxScanTokenSize out)"
    using assms by simp
  then show ?thesis using assms by (simp add: Scan_def tw)
qed

lemma Scan_line:
  assumes "newline \<in> set (take MaxScanTokenSize out) \<or> length out < MaxScanTokenSize"
  shows "\<not> (\<not> ok (Scan out) \<and> Err (Scan out))"
    and "Text (Scan out) = dropCR (takeWhile (\<lambda>c. c \<noteq> newline) out)"
  using assms Scan_short [of out] by (auto simp: Scan_def)

lemma Scan_too_long:
  assumes "newline \<notin> set (take MaxScanTokenSize out)" "MaxScanTokenSize \<le> length out"
  shows "\<not> ok (Scan out) \<and> Err (Scan out)"
  using assms by (simp add: Scan_def)

lemma HasPrefix_iff: "HasPrefix s p \<longleftrightarrow> (\<exists>b. s = p @ b)"
  unfolding HasPrefix_def
  by (metis append_eq_conv_conj append_take_drop_id)

lemma Index_ge: "- 1 \<le> Index s sep"
  by (induction s) auto

lemma Index_absent: "Index s sep = - 1 \<longleftrightarrow> \<not> (\<exists>a b. s = a @ sep @ b)"
proof (induction s)
  case Nil
  then show ?case by auto
next
  case (Cons c cs)
  show ?case
  proof (cases "HasPrefix (c # cs) sep")
    case True
    then obtain b where "c # cs = [] @ sep @ b" by (auto simp: HasPrefix_iff)
    with True show ?thesis by (metis Index.simps(2) zero_neq_neg_one)
  next
    case False
    have ge: "- 1 \<le> Index cs sep" by (rule Index_ge)
    have "(\<exists>a b. c # cs = a @ sep @ b) \<longleftrightarrow> (\<exists>a b. cs = a @ sep @ b)"
    proof
      assume "\<exists>a b. c # cs = a @ sep @ b"
      then obtain a b where ab: "c # cs = a @ sep @ b" by blast
      with False have "a \<noteq> []" by (auto simp: HasPrefix_iff)
      then obtain a' where "a = c # a'" using ab by (cases a) auto
      with ab show "\<exists>a b. cs = a @ sep @ b" by auto
    next
      assume "\<exists>a b. cs = a @ sep @ b"
      then obtain a b where "cs = a @ sep @ b" by blast
      then have "c # cs = (c # a) @ sep @ b" by simp
      then show "\<exists>a b. c # cs = a @ sep @ b" by blast
    qed
    with Cons False ge show ?thesis by auto
  qed
qed

lemma Index_first:
  assumes "Index s sep \<noteq> - 1"
  shows "0 \<le> Index s sep \<and>
         s = take (nat (Index s sep)) s @ sep @ drop (nat (Index s sep) + length sep) s \<and>
         (\<forall>a b. s = a @ sep @ b \<longrightarrow> nat (Index s sep) \<le> length a)"
  using assms
proof (induction s)
  case Nil
  then show ?case by (auto split: if_splits)
next
  case (Cons c cs)
  show ?case
  proof (cases "HasPrefix (c # cs) sep")
    case True
    then obtain b where b: "c # cs = sep @ b" by (auto simp: HasPrefix_iff)
    from True have i0: "Index (c # cs) sep = 0" by simp
    from b have "drop (length sep) (c # cs) = b" by (metis append_eq_conv_conj)
    with b have "c # cs = take 0 (c # cs) @ sep @ drop (0 + length sep) (c # cs)" by simp
    then show ?thesis unfolding i0 by simp
  next
    case False
    with Cons.prems have ne: "Index cs sep \<noteq> - 1" by (auto split: if_splits)
    with False have eq: "Index (c # cs) sep = Index cs sep + 1" by simp
    from Cons.IH [OF ne] have ih0: "0 \<le> Index cs sep"
      and ih1: "cs = take (nat (Index cs sep)) cs @ sep @ drop (nat (Index cs sep) + length sep) cs"
      and ih2: "\<And>a b. cs = a @ sep @ b \<Longrightarrow> nat (Index cs sep) \<le> length a"
      by blast+
    from ih0 have n: "nat (Index cs sep + 1) = Suc (nat (Index cs sep))" by simp
    have "\<And>a b. c # cs = a @ sep @ b \<Longrightarrow> nat (Index (c # cs) sep) \<le> length a"
    proof -
      fix a b assume ab: "c # cs = a @ sep @ b"
      with False have "a \<noteq> []" by (auto simp: HasPrefix_iff)
      then obtain a' where a': "a = c # a'" using ab by (cases a) auto
      with ab have "cs = a' @ sep @ b" by simp
      from ih2 [OF this] show "nat (Index (c # cs) sep) \<le> length a"
        using a' eq n by simp
    qed
    moreover have "c # cs = take (nat (Index (c # cs) sep)) (c # cs) @ sep @
                     drop (nat (Index (c # cs) sep) + length sep) (c # cs)"
      using ih1 eq n by simp
    moreover have "0 \<le> Index (c # cs) sep" using eq ih0 by simp
    ultimately show ?thesis by blast
  qed
qed

section \<open>The resolver\<close>

lemma snmptranslate_state:
  "snd (snmptranslate s oid) =
     s\<lparr>execCalls := execCalls s @ [translateArgs oid]\<rparr>"
  by (simp add: snmptranslate_def translateArgs_def Let_def split: sum.splits)

lemma lookup_hit: "cache s oid = Some e \<Longrightarrow> lookup s oid = (Inr e, s)"
  by (simp add: lookup_def)

lemma lookup_miss_ok:
  assumes "cache s oid = None" "fst (snmptranslate s oid) = Inr e"
  shows "lookup s oid =
           (Inr e, s\<lparr>execCalls := execCalls s @ [translateArgs oid],
                     cache := (cache s)(oid \<mapsto> e)\<rparr>)"
proof -
  obtain r s' where rs: "snmptranslate s oid = (r, s')" by (cases "snmptranslate s oid")
  with assms(2) have "r = Inr e" by simp
  moreover from rs snmptranslate_state [of s oid]
  have "s' = s\<lparr>execCalls := execCalls s @ [translateArgs oid]\<rparr>"
    by simp
  ultimately show ?thesis using assms(1) rs by (simp add: lookup_def)
qed

lemma lookup_miss_err:
  assumes "cache s oid = None" "fst (snmptranslate s oid) = Inl err"
  shows "lookup s oid =
           (Inl err, s\<lparr>execCalls := execCalls s @ [translateArgs oid]\<rparr>)"
proof -
  obtain r s' where rs: "snmptranslate s oid = (r, s')" by (cases "snmptranslate s oid")
  with assms(2) have "r = Inl err" by simp
  moreover from rs snmptranslate_state [of s oid]
  have "s' = s\<lparr>execCalls := execCalls s @ [translateArgs oid]\<rparr>"
    by simp
  ultimately show ?thesis using assms(1) rs by (simp add: lookup_def)
qed

lemma lookup_cases:
  obtains (hit) e where "cache s oid = Some e" "lookup s oid = (Inr e, s)"
  | (ok) e where "cache s oid = None" "fst (snmptranslate s oid) = Inr e"
      "lookup s oid = (Inr e, s\<lparr>execCalls := execCalls s @ [translateArgs oid],
                     cache := (cache s)(oid \<mapsto> e)\<rparr>)"
  | (err) err where "cache s oid = None" "fst (snmptranslate s oid) = Inl err"
      "lookup s oid = (Inl err, s\<lparr>execCalls := execCalls s @ [translateArgs oid]\<rparr>)"
proof (cases "cache s oid")
  case None
  show ?thesis
  proof (cases "fst (snmptranslate s oid)")
    case (Inl err)
    with None err lookup_miss_err show ?thesis by blast
  next
    case (Inr e)
    with None ok lookup_miss_ok show ?thesis by blast
  qed
next
  case (Some e)
  with hit lookup_hit show ?thesis by blast
qed

lemma lookup_keeps_entry:
  assumes "cache s oid = Some e"
  shows "cache (snd (lookup s oid')) oid = Some e"
  using assms by - (rule lookup_cases [of s oid'], auto)


lemma lookups_keep_entry:
  "cache s oid = Some e \<Longrightarrow> cache (lookups s calls) oid = Some e"
proof (induction calls arbitrary: s)
  case Nil
  then show ?case by simp
next
  case (Cons c calls)
  obtain ex oid' where c: "c = (ex, oid')" by (cases c)
  from Cons.prems have "cache (s\<lparr>execCmd := ex\<rparr>) oid = Some e" by simp
  then have "cache (snd (lookup (s\<lparr>execCmd := ex\<rparr>) oid')) oid = Some e"
    by (rule lookup_keeps_entry)
  then show ?case using c Cons.IH by simp
qed

lemma lookup_ok_cached:
  assumes "lookup s oid = (Inr e, s1)"
  shows "cache s1 oid = Some e"
  using assms by - (rule lookup_cases [of s oid], auto)

text \<open>
  Claim C4. Once \<open>lookup\<close> of an OID has succeeded with entry \<open>e\<close>, then after any
  history of further lookups, and whatever the external command would answer now,
  \<open>lookup\<close> of the same OID returns \<open>e\<close> again and leaves the whole state, in particular
  the record of external invocations, as it was.
\<close>

theorem cache_hit_no_invocation:
  assumes "lookup s oid = (Inr e, s1)"
    and "s2 = (lookups s1 calls)\<lparr>execCmd := ex\<rparr>"
  shows "fst (lookup s2 oid) = Inr e \<and> snd (lookup s2 oid) = s2 \<and>
         execCalls (snd (lookup s2 oid)) = execCalls s2"
proof -
  from assms(1) have "cache s1 oid = Some e" by (rule lookup_ok_cached)
  then have "cache (lookups s1 calls) oid = Some e" by (rule lookups_keep_entry)
  with assms(2) have "cache s2 oid = Some e" by simp
  then have "lookup s2 oid = (Inr e, s2)" by (rule lookup_hit)
  then show ?thesis by simp
qed

text \<open>
  Claim C5. When the OID is not cached and its external translation fails with \<open>err\<close>,
  \<open>lookup\<close> returns \<open>err\<close> and the cache is exactly what it was, with no entry for the
  OID; the next \<open>lookup\<close> of that OID invokes the external command once more and returns
  what that translation gives.
\<close>

theorem failed_translation_not_cached:
  assumes "cache s oid = None"
    and "fst (snmptranslate s oid) = Inl err"
    and "s' = snd (lookup s oid)"
  shows "fst (lookup s oid) = Inl err \<and> cache s' = cache s \<and> cache s' oid = None \<and>
         fst (lookup (s'\<lparr>execCmd := ex\<rparr>) oid) = fst (snmptranslate (s'\<lparr>execCmd := ex\<rparr>) oid) \<and>
         execCalls (snd (lookup (s'\<lparr>execCmd := ex\<rparr>) oid)) = execCalls s' @ [translateArgs oid]"
proof -
  from assms(1,2) have l: "lookup s oid = (Inl err, s\<lparr>execCalls := execCalls s @ [translateArgs oid]\<rparr>)"
    by (rule lookup_miss_err)
  with assms(3) have s': "s' = s\<lparr>execCalls := execCalls s @ [translateArgs oid]\<rparr>" by simp
  with assms(1) have miss: "cache (s'\<lparr>execCmd := ex\<rparr>) oid = None" by simp
  have again: "fst (lookup (s'\<lparr>execCmd := ex\<rparr>) oid) = fst (snmptranslate (s'\<lparr>execCmd := ex\<rparr>) oid) \<and>
         execCalls (snd (lookup (s'\<lparr>execCmd := ex\<rparr>) oid)) = execCalls s' @ [translateArgs oid]"
    using miss by - (rule lookup_cases [of "s'\<lparr>execCmd := ex\<rparr>" oid], auto)
  from l s' assms(1) again show ?thesis by simp
qed

lemma exampleExec_linkDown:
  "snmptranslate (s\<lparr>execCmd := exampleExec\<rparr>) linkDownOID =
     (Inr linkDown, s\<lparr>execCmd := exampleExec, execCalls := execCalls s @ [translateArgs linkDownOID]\<rparr>)"
proof -
  let ?out = "''IF-MIB::linkDown\<newline>linkDown NOTIFICATION-TYPE\<newline>''"
  have "length ?out < MaxScanTokenSize" by (simp add: MaxScanTokenSize_def)
  from Scan_short [OF this] have "Scan ?out = \<lparr>ok = True, Err = False, Text = ''IF-MIB::linkDown''\<rparr>"
    by (simp add: newline_def dropCR_def)
  then show ?thesis
    by (simp add: snmptranslate_def exampleExec_def linkDownOID_def linkDown_def translateArgs_def
        HasPrefix_def)
qed

lemma exampleExec_unknown:
  "snmptranslate (s\<lparr>execCmd := exampleExec\<rparr>) ''.1.2.3'' =
     (Inl (ExecFailed ''exit status 2''),
      s\<lparr>execCmd := exampleExec, execCalls := execCalls s @ [translateArgs ''.1.2.3'']\<rparr>)"
  by (simp add: snmptranslate_def exampleExec_def translateArgs_def)

lemma s0_exec: "s0\<lparr>execCmd := exampleExec\<rparr> = s0"
  by (simp add: s0_def)

lemma lookup_s0_linkDown:
  "lookup s0 linkDownOID =
     (Inr linkDown, s0\<lparr>execCalls := [translateArgs linkDownOID], cache := [linkDownOID \<mapsto> linkDown]\<rparr>)"
proof -
  have "cache s0 linkDownOID = None" by (simp add: s0_def)
  moreover have "fst (snmptranslate s0 linkDownOID) = Inr linkDown"
    using exampleExec_linkDown [of s0] by (simp add: s0_exec)
  ultimately show ?thesis using lookup_miss_ok [of s0 linkDownOID linkDown] by (simp add: s0_def)
qed

lemma lookups_s0resolved_unknown:
  "lookups s0resolved [(exampleExec, ''.1.2.3'')] =
     s0resolved\<lparr>execCalls := [translateArgs linkDownOID, translateArgs ''.1.2.3'']\<rparr>"
proof -
  have same: "s0resolved\<lparr>execCmd := exampleExec\<rparr> = s0resolved"
    by (simp add: s0resolved_def s0_def)
  have "cache s0resolved ''.1.2.3'' = None" by (simp add: s0resolved_def linkDownOID_def)
  moreover have "fst (snmptranslate s0resolved ''.1.2.3'') = Inl (ExecFailed ''exit status 2'')"
    using exampleExec_unknown [of s0resolved] by (simp add: same)
  ultimately have "lookup s0resolved ''.1.2.3'' =
      (Inl (ExecFailed ''exit status 2''),
       s0resolved\<lparr>execCalls := execCalls s0resolved @ [translateArgs ''.1.2.3'']\<rparr>)"
    by (rule lookup_miss_err)
  then show ?thesis by (simp add: same) (simp add: s0resolved_def)
qed

theorem cache_hit_no_invocation_witness:
  "lookup s0 linkDownOID = (Inr linkDown, s0resolved) \<and>
   fst (lookup ((lookups s0resolved [(exampleExec, ''.1.2.3'')])\<lparr>execCmd := longExec\<rparr>) linkDownOID) =
     Inr linkDown \<and>
   execCalls (snd (lookup ((lookups s0resolved [(exampleExec, ''.1.2.3'')])\<lparr>execCmd := longExec\<rparr>)
                      linkDownOID)) =
     [translateArgs linkDownOID, translateArgs ''.1.2.3'']"
proof -
  have l: "lookup s0 linkDownOID = (Inr linkDown, s0resolved)"
    by (simp add: lookup_s0_linkDown s0resolved_def)
  from cache_hit_no_invocation [OF l refl, where calls = "[(exampleExec, ''.1.2.3'')]" and ex = longExec]
  show ?thesis using l by (simp add: lookups_s0resolved_unknown del: lookups.simps)
qed

lemma snmptranslate_s0_unknown:
  "fst (snmptranslate s0 ''.1.2.3'') = Inl (ExecFailed ''exit status 2'')"
  using exampleExec_unknown [of s0] by (simp add: s0_exec)

theorem failed_translation_not_cached_witness:
  "cache s0 ''.1.2.3'' = None \<and>
   fst (snmptranslate s0 ''.1.2.3'') = Inl (ExecFailed ''exit status 2'') \<and>
   fst (lookup s0 ''.1.2.3'') = Inl (ExecFailed ''exit status 2'') \<and>
   cache (snd (lookup s0 ''.1.2.3'')) = Map.empty \<and>
   execCalls (snd (lookup s0 ''.1.2.3'')) = [translateArgs ''.1.2.3''] \<and>
   execCalls (snd (lookup (snd (lookup s0 ''.1.2.3'')) ''.1.2.3'')) =
     [translateArgs ''.1.2.3'', translateArgs ''.1.2.3'']"
proof -
  have miss: "cache s0 ''.1.2.3'' = None" by (simp add: s0_def)
  have l: "lookup s0 ''.1.2.3'' =
             (Inl (ExecFailed ''exit status 2''), s0\<lparr>execCalls := execCalls s0 @ [translateArgs ''.1.2.3'']\<rparr>)"
    using miss snmptranslate_s0_unknown by (rule lookup_miss_err)
  have same: "(snd (lookup s0 ''.1.2.3''))\<lparr>execCmd := exampleExec\<rparr> = snd (lookup s0 ''.1.2.3'')"
    by (simp add: l) (simp add: s0_def)
  have calls0: "execCalls s0 = []" "cache s0 = Map.empty" by (simp_all add: s0_def)
  from failed_translation_not_cached [OF miss snmptranslate_s0_unknown refl, of exampleExec]
  show ?thesis using miss snmptranslate_s0_unknown
    by (simp only: same) (simp add: l calls0)
qed


lemma snmptranslate_result:
  assumes "execCmd s (Timeout s) ''snmptranslate'' [''-Td'', ''-Ob'', ''-m'', ''all'', oid] = Inr out"
  shows "fst (snmptranslate s oid) =
           (if \<not> ok (Scan out) \<and> Err (Scan out) then Inl ScanError
            else if Index (Text (Scan out)) ''::'' = - 1 then Inl NotFound
            else Inr \<lparr>mibName = take (nat (Index (Text (Scan out)) ''::'')) (Text (Scan out)),
                      oidText = drop (nat (Index (Text (Scan out)) ''::'') + 2) (Text (Scan out))\<rparr>)"
  using assms by (simp add: snmptranslate_def Let_def)

text \<open>
  Claim C7, as amended. The first line of the output is what precedes the first line
  feed, less one trailing carriage return. When the scanner can deliver it (a line feed
  among the first \<open>MaxScanTokenSize\<close> bytes, or an output shorter than that), the line is
  cut at the first occurrence of \<open>::\<close>: what precedes becomes \<open>mibName\<close>, what follows
  becomes \<open>oidText\<close>, and a line without the separator is the error \<open>not found\<close>. When the
  first \<open>MaxScanTokenSize\<close> bytes hold no line feed, the scanner gives up and the
  translation fails with the scanner's error, whether the line has a separator or
  not.
\<close>

theorem first_line_split:
  assumes "execCmd s (Timeout s) ''snmptranslate'' [''-Td'', ''-Ob'', ''-m'', ''all'', oid] = Inr out"
    and "line = dropCR (takeWhile (\<lambda>c. c \<noteq> newline) out)"
  shows "if newline \<in> set (take MaxScanTokenSize out) \<or> length out < MaxScanTokenSize
         then (if \<exists>a b. line = a @ ''::'' @ b
               then \<exists>mib txt. fst (snmptranslate s oid) = Inr \<lparr>mibName = mib, oidText = txt\<rparr> \<and>
                      line = mib @ ''::'' @ txt \<and>
                      (\<forall>a b. line = a @ ''::'' @ b \<longrightarrow> length mib \<le> length a)
               else fst (snmptranslate s oid) = Inl NotFound)
         else fst (snmptranslate s oid) = Inl ScanError"
proof (cases "newline \<in> set (take MaxScanTokenSize out) \<or> length out < MaxScanTokenSize")
  case True
  note fits = this
  then have scan: "\<not> (\<not> ok (Scan out) \<and> Err (Scan out))" and tx: "Text (Scan out) = line"
    using Scan_line [of out] assms(2) by simp_all
  show ?thesis
  proof (cases "\<exists>a b. line = a @ ''::'' @ b")
    case True
    note sep = this
    then have ne: "Index line ''::'' \<noteq> - 1" by (simp add: Index_absent)
    let ?i = "nat (Index line ''::'')"
    from Index_first [OF ne]
    have split: "line = take ?i line @ ''::'' @ drop (?i + 2) line"
      and first: "\<forall>a b. line = a @ ''::'' @ b \<longrightarrow> ?i \<le> length a"
      by simp_all
    from first [rule_format, OF split] have len: "length (take ?i line) = ?i" by simp
    have res: "fst (snmptranslate s oid) = Inr \<lparr>mibName = take ?i line, oidText = drop (?i + 2) line\<rparr>"
      using snmptranslate_result [OF assms(1)] scan tx ne by simp
    have "\<forall>a b. line = a @ ''::'' @ b \<longrightarrow> length (take ?i line) \<le> length a"
      using first len by simp
    with res split have "\<exists>mib txt. fst (snmptranslate s oid) = Inr \<lparr>mibName = mib, oidText = txt\<rparr> \<and>
                      line = mib @ ''::'' @ txt \<and>
                      (\<forall>a b. line = a @ ''::'' @ b \<longrightarrow> length mib \<le> length a)"
      by blast
    with fits sep show ?thesis by simp
  next
    case False
    then have "Index line ''::'' = - 1" by (simp add: Index_absent)
    then have "fst (snmptranslate s oid) = Inl NotFound"
      using snmptranslate_result [OF assms(1)] scan tx by simp
    with fits False show ?thesis by simp
  qed
next
  case False
  then have "\<not> ok (Scan out) \<and> Err (Scan out)"
    using Scan_too_long [of out] by simp
  then have "fst (snmptranslate s oid) = Inl ScanError"
    using snmptranslate_result [OF assms(1)] by simp
  with False show ?thesis by simp
qed

lemma longLine_facts:
  "newline \<notin> set (take MaxScanTokenSize longLine)" "MaxScanTokenSize \<le> length longLine"
proof -
  have "newline \<notin> set longLine" by (simp add: longLine_def newline_def)
  then show "newline \<notin> set (take MaxScanTokenSize longLine)"
    by (meson in_set_takeD)
  show "MaxScanTokenSize \<le> length longLine" by (simp add: longLine_def MaxScanTokenSize_def)
qed

text \<open>
  Claim C7 as stated fails on a first line too long for the scanner: this output has
  the separator after \<open>IF-MIB\<close>, yet no entry is produced, and the error is not
  \<open>not found\<close>.
\<close>

theorem long_first_line_counterexample:
  "longLine = ''IF-MIB'' @ ''::'' @ replicate 65536 (CHR ''a'') \<and>
   fst (snmptranslate (s0\<lparr>execCmd := longExec\<rparr>) linkDownOID) = Inl ScanError"
proof -
  have "\<not> ok (Scan longLine) \<and> Err (Scan longLine)"
    using longLine_facts by (rule Scan_too_long)
  moreover have "execCmd (s0\<lparr>execCmd := longExec\<rparr>) (Timeout (s0\<lparr>execCmd := longExec\<rparr>))
      ''snmptranslate'' [''-Td'', ''-Ob'', ''-m'', ''all'', linkDownOID] = Inr longLine"
    by (simp add: longExec_def)
  ultimately show ?thesis
    using snmptranslate_result [of "s0\<lparr>execCmd := longExec\<rparr>" linkDownOID longLine]
    by (simp add: longLine_def)
qed

theorem first_line_split_witness:
  "execCmd s0 (Timeout s0) ''snmptranslate'' [''-Td'', ''-Ob'', ''-m'', ''all'', linkDownOID] =
     Inr ''IF-MIB::linkDown\<newline>linkDown NOTIFICATION-TYPE\<newline>'' \<and>
   ''IF-MIB::linkDown'' =
     dropCR (takeWhile (\<lambda>c. c \<noteq> newline) ''IF-MIB::linkDown\<newline>linkDown NOTIFICATION-TYPE\<newline>'') \<and>
   (\<exists>mib txt. fst (snmptranslate s0 linkDownOID) = Inr \<lparr>mibName = mib, oidText = txt\<rparr> \<and>
      ''IF-MIB::linkDown'' = mib @ ''::'' @ txt \<and>
      (\<forall>a b. ''IF-MIB::linkDown'' = a @ ''::'' @ b \<longrightarrow> length mib \<le> length a))"
proof -
  let ?out = "''IF-MIB::linkDown\<newline>linkDown NOTIFICATION-TYPE\<newline>''"
  have ex: "execCmd s0 (Timeout s0) ''snmptranslate'' [''-Td'', ''-Ob'', ''-m'', ''all'', linkDownOID] = Inr ?out"
    by (simp add: s0_def exampleExec_def linkDownOID_def)
  have line: "''IF-MIB::linkDown'' = dropCR (takeWhile (\<lambda>c. c \<noteq> newline) ?out)"
    by (simp add: newline_def dropCR_def)
  have fits: "newline \<in> set (take MaxScanTokenSize ?out) \<or> length ?out < MaxScanTokenSize"
    by (simp add: MaxScanTokenSize_def)
  have sep: "\<exists>a b. ''IF-MIB::linkDown'' = a @ ''::'' @ b"
  proof -
    have "''IF-MIB::linkDown'' = ''IF-MIB'' @ ''::'' @ ''linkDown''" by simp
    then show ?thesis by blast
  qed
  from first_line_split [OF ex line]
  have "\<exists>mib txt. fst (snmptranslate s0 linkDownOID) = Inr \<lparr>mibName = mib, oidText = txt\<rparr> \<and>
      ''IF-MIB::linkDown'' = mib @ ''::'' @ txt \<and>
      (\<forall>a b. ''IF-MIB::linkDown'' = a @ ''::'' @ b \<longrightarrow> length mib \<le> length a)"
    by (simp only: fits sep if_True)
  with ex line show ?thesis by (intro conjI)
qed


section \<open>Starting the listener: the service address and the version 3 settings\<close>

lemma Index_udp: "Index (''udp://'' @ rest) ''://'' = 3"
  by (simp add: HasPrefix_def)

lemma scheme_udp_iff:
  "Index addr ''://'' \<noteq> - 1 \<and> take (nat (Index addr ''://'')) addr = ''udp'' \<longleftrightarrow>
   (\<exists>rest. addr = ''udp://'' @ rest)"
proof
  assume a: "Index addr ''://'' \<noteq> - 1 \<and> take (nat (Index addr ''://'')) addr = ''udp''"
  then have "addr = take (nat (Index addr ''://'')) addr @ ''://'' @
               drop (nat (Index addr ''://'') + length ''://'') addr"
    using Index_first [of addr "''://''"] by blast
  with a have "addr = ''udp://'' @ drop (nat (Index addr ''://'') + length ''://'') addr"
    by simp
  then show "\<exists>rest. addr = ''udp://'' @ rest" by blast
next
  assume "\<exists>rest. addr = ''udp://'' @ rest"
  then obtain rest where r: "addr = ''udp://'' @ rest" by blast
  show "Index addr ''://'' \<noteq> - 1 \<and> take (nat (Index addr ''://'')) addr = ''udp''"
    unfolding r Index_udp by simp
qed

lemma SplitN2_cases:
  "SplitN2 addr ''://'' = [addr] \<and> Index addr ''://'' = - 1 \<or>
   SplitN2 addr ''://'' = [take (nat (Index addr ''://'')) addr, drop (nat (Index addr ''://'') + 3) addr] \<and>
     Index addr ''://'' \<noteq> - 1"
  by (simp add: SplitN2_def eval_nat_numeral)

text \<open>
  Claim C8. When the service address does not begin with \<open>udp://\<close> (it has no \<open>://\<close>,
  or what precedes its first \<open>://\<close> is not \<open>udp\<close>, see \<open>scheme_udp_iff\<close>), \<open>Start\<close>
  returns an error, \<open>Listen\<close> has not been started on the new listener, nothing is logged,
  and the outcome does not depend on what listening would have done.
\<close>

theorem start_rejects_scheme:
  assumes "\<not> (\<exists>rest. ServiceAddress s = ''udp://'' @ rest)"
  shows "(\<exists>err. fst (Start uni listen s) = Some err) \<and>
         (\<exists>p. listener (snd (Start uni listen s)) = Some \<lparr>Params = p, listenCalls = []\<rparr>) \<and>
         Log (snd (Start uni listen s)) = Log s \<and>
         Start uni listen s = Start uni listen' s"
proof -
  from assms have bad: "Index (ServiceAddress s) ''://'' = - 1 \<or>
      take (nat (Index (ServiceAddress s) ''://'')) (ServiceAddress s) \<noteq> ''udp''"
    using scheme_udp_iff [of "ServiceAddress s"] by blast
  then show ?thesis
    using SplitN2_cases [of "ServiceAddress s"]
    by (auto simp: Start_def Let_def setParams_def split: prod.splits option.splits)
qed

theorem start_rejects_scheme_witness:
  "\<not> (\<exists>rest. ServiceAddress tcpCfg = ''udp://'' @ rest) \<and>
   fst (Start id (\<lambda>addr. None) tcpCfg) = Some (UnknownProtocol ''tcp'' ''tcp://:162'') \<and>
   listener (snd (Start id (\<lambda>addr. None) tcpCfg)) = Some \<lparr>Params = Default, listenCalls = []\<rparr>"
proof -
  have h: "\<not> (\<exists>rest. ServiceAddress tcpCfg = ''udp://'' @ rest)"
    by (simp add: tcpCfg_def s0_def)
  have "SplitN2 ''tcp://:162'' ''://'' = [''tcp'', '':162'']"
    by (simp add: SplitN2_def HasPrefix_def)
  then have "Start id (\<lambda>addr. None) tcpCfg =
        (Some (UnknownProtocol ''tcp'' ''tcp://:162''), setParams tcpCfg Default)"
    by (simp add: Start_def tcpCfg_def s0_def versionOf_def Default_def)
  with h start_rejects_scheme [OF h, of id "\<lambda>addr. None"] show ?thesis
    by (simp add: setParams_def)
qed















section \<open>The trap handler: what each part leaves unchanged\<close>


lemma walk_append:
  "walk (xs @ ys) st =
     (case walk xs st of Next st' \<Rightarrow> walk ys st' | Return s' \<Rightarrow> Return s' | Panic s' \<Rightarrow> Panic s')"
  by (induction xs arbitrary: st) (auto split: flow.splits)


lemma walkVar_oid:
  assumes "Name v \<noteq> sysUpTimeOID" "Type v = ObjectIdentifier" "Value v = VString val"
  shows "walkVar v (s, m, tgs) =
     (case lookup s val of
        (Inl err, s') \<Rightarrow> Return (Errorf s' (ErrResolvingValueOID err))
      | (Inr e, s') \<Rightarrow>
          if Name v = snmpTrapOID \<and> m = []
          then Next (s', oidText e, tgs(''oid'' \<mapsto> val, ''mib'' \<mapsto> mibName e))
          else Next (s', m, tgs(''oid'' \<mapsto> val, ''name'' \<mapsto> oidText e, ''mib'' \<mapsto> mibName e)))"
  using assms by (simp add: walkVar_def)

lemma walkVar_oid_untyped:
  assumes "Name v \<noteq> sysUpTimeOID" "Type v = ObjectIdentifier" "\<forall>val. Value v \<noteq> VString val"
  shows "walkVar v (s, m, tgs) = Return (Errorf s ErrGettingValueOID)"
  using assms by (cases "Value v") (auto simp: walkVar_def)

lemma walkVar_octet:
  assumes "Name v \<noteq> sysUpTimeOID" "Type v = OctetString"
  shows "walkVar v (s, m, tgs) =
     (case lookup s (Name v) of
        (Inl err, s') \<Rightarrow> Return (Errorf s' (ErrResolvingOID err))
      | (Inr e, s') \<Rightarrow>
          (case Value v of
             VBytes bytes \<Rightarrow> Next (s', m, tgs(oidText e \<mapsto> bytes))
           | _ \<Rightarrow> Panic s'))"
  using assms by (simp add: walkVar_def)







text \<open>
  Claim C6, as amended. For a version 1 packet whose \<open>GenericTrap\<close> is below 0 or above
  6 no trap OID is derived, so the version 1 block performs no resolution and sets none
  of the tags \<open>oid\<close>, \<open>name\<close>, \<open>mib\<close>. It still adds the tag \<open>agent_address\<close> when the
  packet's agent address is not empty, and it still adds the field
  \<open>sysUpTimeInstance\<close>.
\<close>

theorem v1_unknown_generic_trap:
  assumes "PacketVersion p = Version1" and "GenericTrap p < 0 \<or> 6 < GenericTrap p"
  shows "trapOid p = [] \<and>
         v1Translate s p tgs flds =
           Next (s,
                 if AgentAddress p \<noteq> [] then tgs(''agent_address'' \<mapsto> AgentAddress p) else tgs,
                 flds(''sysUpTimeInstance'' \<mapsto> FUint (Timestamp p)))"
proof -
  from assms(2) have "trapOid p = []" by (auto simp: trapOid_def)
  with assms(1) show ?thesis by (simp add: v1Translate_def)
qed

text \<open>
  Claim C10, as amended. Take an octet-string-typed variable, not the skipped sysUptime
  one, whose value is not a byte slice. When the walk reaches it and its own OID
  resolves, the unchecked type assertion panics, and so does the handler. When the
  resolution of its OID fails, the error is logged and the handler returns without
  panicking. An object-identifier-typed variable whose value is not a string is
  logged and the handler returns: there the type is checked.
\<close>

theorem octet_string_assertion_panics:
  assumes "Type v = OctetString" and "Name v \<noteq> sysUpTimeOID" and "\<forall>bytes. Value v \<noteq> VBytes bytes"
  shows "(\<forall>e s'. lookup s (Name v) = (Inr e, s') \<longrightarrow> walkVar v (s, m, tgs) = Panic s') \<and>
         (\<forall>err s'. lookup s (Name v) = (Inl err, s') \<longrightarrow>
            walkVar v (s, m, tgs) = Return (Errorf s' (ErrResolvingOID err))) \<and>
         (\<forall>s0 p source now s1 tgs1 flds pre post e s'.
            Variables p = pre @ v # post \<and>
            v1Translate s0 p [''version'' \<mapsto> VersionString (PacketVersion p), ''source'' \<mapsto> source]
              Map.empty = Next (s1, tgs1, flds) \<and>
            walk pre (s1, [], tgs1) = Next (s, m, tgs) \<and>
            lookup s (Name v) = (Inr e, s') \<longrightarrow>
            handler s0 p source now = Panic s') \<and>
         (\<forall>u. Type u = ObjectIdentifier \<and> Name u \<noteq> sysUpTimeOID \<and> (\<forall>val. Value u \<noteq> VString val) \<longrightarrow>
            walkVar u (s, m, tgs) = Return (Errorf s ErrGettingValueOID))"
proof -
  have panic: "walkVar v (s, m, tgs) = Panic s'" if "lookup s (Name v) = (Inr e, s')" for e s'
    using that assms by (cases "Value v") (auto simp: walkVar_octet)
  have logged: "walkVar v (s, m, tgs) = Return (Errorf s' (ErrResolvingOID err))"
    if "lookup s (Name v) = (Inl err, s')" for err s'
    using that assms by (simp add: walkVar_octet)
  have whole: "handler s0 p source now = Panic s'"
    if "Variables p = pre @ v # post"
      and "v1Translate s0 p [''version'' \<mapsto> VersionString (PacketVersion p), ''source'' \<mapsto> source]
              Map.empty = Next (s1, tgs1, flds)"
      and "walk pre (s1, [], tgs1) = Next (s, m, tgs)"
      and "lookup s (Name v) = (Inr e, s')"
    for s0 p source now s1 tgs1 flds pre post e s'
    using that panic [OF that(4)] by (simp add: handler_def walk_append)
  have oid: "walkVar u (s, m, tgs) = Return (Errorf s ErrGettingValueOID)"
    if "Type u = ObjectIdentifier \<and> Name u \<noteq> sysUpTimeOID \<and> (\<forall>val. Value u \<noteq> VString val)" for u
    using that by (simp add: walkVar_oid_untyped)
  from panic logged whole oid show ?thesis by blast
qed






lemma snmpTrapOID_not_skipped: "snmpTrapOID \<noteq> sysUpTimeOID"
  by (simp add: snmpTrapOID_def sysUpTimeOID_def)



section \<open>The handler on the example packets\<close>

lemma trapVar_simps:
  "Name trapVar = snmpTrapOID" "Type trapVar = ObjectIdentifier" "Value trapVar = VString linkDownOID"
  "Name trapVar \<noteq> sysUpTimeOID"
  by (simp_all add: trapVar_def snmpTrapOID_not_skipped)

lemma lookup_s0_resolved: "lookup s0 linkDownOID = (Inr linkDown, s0resolved)"
  by (simp add: lookup_s0_linkDown s0resolved_def)


lemma walkVar_trapVar_s0:
  "walkVar trapVar (s0, m, tgs) =
     (if m = [] then Next (s0resolved, ''linkDown'', tgs(''oid'' \<mapsto> linkDownOID, ''mib'' \<mapsto> ''IF-MIB''))
      else Next (s0resolved, m,
                 tgs(''oid'' \<mapsto> linkDownOID, ''name'' \<mapsto> ''linkDown'', ''mib'' \<mapsto> ''IF-MIB'')))"
  by (simp add: walkVar_oid [OF trapVar_simps(4,2,3)] lookup_s0_resolved trapVar_simps(1) linkDown_def)



lemma v1Translate_not_v1:
  "PacketVersion p \<noteq> Version1 \<Longrightarrow> v1Translate s p tgs flds = Next (s, tgs, flds)"
  by (simp add: v1Translate_def)






lemma v1odd_simps:
  "PacketVersion v1odd = Version1" "GenericTrap v1odd < 0 \<or> 6 < GenericTrap v1odd"
  "Variables v1odd = [trapVar]" "AgentAddress v1odd = ''10.0.0.1''" "Timestamp v1odd = 42"
  by (simp_all add: v1odd_def)

theorem v1_unknown_generic_trap_witness:
  "PacketVersion v1odd = Version1 \<and> (GenericTrap v1odd < 0 \<or> 6 < GenericTrap v1odd) \<and>
   trapOid v1odd = [] \<and>
   v1Translate s0 v1odd [''version'' \<mapsto> ''1'', ''source'' \<mapsto> ''192.0.2.1''] Map.empty =
     Next (s0, [''version'' \<mapsto> ''1'', ''source'' \<mapsto> ''192.0.2.1'', ''agent_address'' \<mapsto> ''10.0.0.1''],
           [''sysUpTimeInstance'' \<mapsto> FUint 42])"
  using v1_unknown_generic_trap [OF v1odd_simps(1,2), of s0
      "[''version'' \<mapsto> ''1'', ''source'' \<mapsto> ''192.0.2.1'']" Map.empty]
  by (simp add: v1odd_simps)

lemma handler_v1odd:
  "handler s0 v1odd ''192.0.2.1'' 1000 =
     Return (s0resolved\<lparr>acc :=
       [\<lparr>measurement = ''snmp_trap'',
         mfields = [''sysUpTimeInstance'' \<mapsto> FUint 42, ''linkDown'' \<mapsto> FInt 1],
         mtags = [''version'' \<mapsto> ''1'', ''source'' \<mapsto> ''192.0.2.1'',
                  ''agent_address'' \<mapsto> ''10.0.0.1'', ''oid'' \<mapsto> linkDownOID,
                  ''mib'' \<mapsto> ''IF-MIB''],
         tm = 1000\<rparr>]\<rparr>)"
proof -
  have t: "trapOid v1odd = []" by (simp add: trapOid_def v1odd_def)
  have a: "v1Translate s0 v1odd [''version'' \<mapsto> ''1'', ''source'' \<mapsto> ''192.0.2.1''] Map.empty =
     Next (s0, [''version'' \<mapsto> ''1'', ''source'' \<mapsto> ''192.0.2.1'', ''agent_address'' \<mapsto> ''10.0.0.1''],
           [''sysUpTimeInstance'' \<mapsto> FUint 42])"
    by (simp add: v1Translate_def t v1odd_simps)
  have "acc s0resolved = []" by (simp add: s0resolved_def s0_def)
  then show ?thesis
    by (simp add: handler_def v1odd_simps a walkVar_trapVar_s0 AddFields_def)
qed

text \<open>
  Claim C6 as stated fails on a version 1 packet with generic-trap code 7: the event
  emitted for it carries the tag \<open>agent_address\<close> and the field \<open>sysUpTimeInstance\<close>.
\<close>

theorem v1_unknown_generic_trap_counterexample:
  "PacketVersion v1odd = Version1 \<and> GenericTrap v1odd = 7 \<and>
   length (acc (finalState (handler s0 v1odd ''192.0.2.1'' 1000))) = 1 \<and>
   mtags (hd (acc (finalState (handler s0 v1odd ''192.0.2.1'' 1000)))) ''agent_address'' =
     Some ''10.0.0.1'' \<and>
   mfields (hd (acc (finalState (handler s0 v1odd ''192.0.2.1'' 1000)))) ''sysUpTimeInstance'' =
     Some (FUint 42)"
proof -
  have "PacketVersion v1odd = Version1 \<and> GenericTrap v1odd = 7" by (simp add: v1odd_def)
  then show ?thesis by (simp add: handler_v1odd)
qed


lemma exampleExec_sysName:
  "snmptranslate (s\<lparr>execCmd := exampleExec\<rparr>) ''.1.3.6.1.2.1.1.5.0'' =
     (Inr \<lparr>mibName = ''SNMPv2-MIB'', oidText = ''sysName.0''\<rparr>,
      s\<lparr>execCmd := exampleExec, execCalls := execCalls s @ [translateArgs ''.1.3.6.1.2.1.1.5.0'']\<rparr>)"
proof -
  let ?out = "''SNMPv2-MIB::sysName.0\<newline>''"
  have "length ?out < MaxScanTokenSize" by (simp add: MaxScanTokenSize_def)
  from Scan_short [OF this] have "Scan ?out = \<lparr>ok = True, Err = False, Text = ''SNMPv2-MIB::sysName.0''\<rparr>"
    by (simp add: newline_def dropCR_def)
  then show ?thesis
    by (simp add: snmptranslate_def exampleExec_def translateArgs_def HasPrefix_def)
qed

lemma s0resolved_exec: "s0resolved\<lparr>execCmd := exampleExec\<rparr> = s0resolved"
  by (simp add: s0resolved_def s0_def)

lemma lookup_sysName:
  "fst (lookup s0resolved ''.1.3.6.1.2.1.1.5.0'') =
     Inr \<lparr>mibName = ''SNMPv2-MIB'', oidText = ''sysName.0''\<rparr>"
proof -
  have "cache s0resolved ''.1.3.6.1.2.1.1.5.0'' = None"
    by (simp add: s0resolved_def linkDownOID_def)
  moreover have "fst (snmptranslate s0resolved ''.1.3.6.1.2.1.1.5.0'') =
      Inr \<lparr>mibName = ''SNMPv2-MIB'', oidText = ''sysName.0''\<rparr>"
    using exampleExec_sysName [of s0resolved] by (simp add: s0resolved_exec)
  ultimately show ?thesis by (simp add: lookup_miss_ok)
qed

lemma sysNameVar_simps:
  "Type sysNameVar = OctetString" "Name sysNameVar \<noteq> sysUpTimeOID"
  "\<forall>bytes. Value sysNameVar \<noteq> VBytes bytes" "Name sysNameVar = ''.1.3.6.1.2.1.1.5.0''"
  by (simp_all add: sysNameVar_def sysUpTimeOID_def)

theorem octet_string_assertion_panics_witness:
  "Type sysNameVar = OctetString \<and> Name sysNameVar \<noteq> sysUpTimeOID \<and>
   (\<forall>bytes. Value sysNameVar \<noteq> VBytes bytes) \<and>
   fst (lookup s0resolved (Name sysNameVar)) =
     Inr \<lparr>mibName = ''SNMPv2-MIB'', oidText = ''sysName.0''\<rparr> \<and>
   Variables v2sysName = [trapVar] @ sysNameVar # [] \<and>
   walkVar sysNameVar
     (s0resolved, ''linkDown'',
      [''version'' \<mapsto> ''2c'', ''source'' \<mapsto> ''192.0.2.1'', ''oid'' \<mapsto> linkDownOID,
       ''mib'' \<mapsto> ''IF-MIB'']) =
     Panic (snd (lookup s0resolved (Name sysNameVar))) \<and>
   handler s0 v2sysName ''192.0.2.1'' 1000 = Panic (snd (lookup s0resolved (Name sysNameVar)))"
proof -
  let ?tgs = "[''version'' \<mapsto> ''2c'', ''source'' \<mapsto> ''192.0.2.1'', ''oid'' \<mapsto> linkDownOID,
       ''mib'' \<mapsto> ''IF-MIB'']"
  let ?e = "\<lparr>mibName = ''SNMPv2-MIB'', oidText = ''sysName.0''\<rparr>"
  have fl: "fst (lookup s0resolved (Name sysNameVar)) = Inr ?e"
    using lookup_sysName by (simp add: sysNameVar_simps(4))
  then have l: "lookup s0resolved (Name sysNameVar) = (Inr ?e, snd (lookup s0resolved (Name sysNameVar)))"
    by (simp add: prod_eq_iff)
  have vars: "Variables v2sysName = [trapVar] @ sysNameVar # []" by (simp add: v2sysName_def)
  have v1: "v1Translate s0 v2sysName
      [''version'' \<mapsto> VersionString (PacketVersion v2sysName), ''source'' \<mapsto> ''192.0.2.1''] Map.empty =
      Next (s0, [''version'' \<mapsto> ''2c'', ''source'' \<mapsto> ''192.0.2.1''], Map.empty)"
    by (simp add: v1Translate_not_v1 v2sysName_def)
  have w: "walk [trapVar] (s0, [], [''version'' \<mapsto> ''2c'', ''source'' \<mapsto> ''192.0.2.1'']) =
      Next (s0resolved, ''linkDown'', ?tgs)"
    by (simp add: walkVar_trapVar_s0)
  from octet_string_assertion_panics [OF sysNameVar_simps(1,2,3), of s0resolved "''linkDown''" ?tgs]
  have step: "walkVar sysNameVar (s0resolved, ''linkDown'', ?tgs) =
                Panic (snd (lookup s0resolved (Name sysNameVar)))"
    and whole: "handler s0 v2sysName ''192.0.2.1'' 1000 =
                Panic (snd (lookup s0resolved (Name sysNameVar)))"
    using l vars v1 w by blast+
  from sysNameVar_simps(1,2,3) fl vars step whole show ?thesis by (intro conjI)
qed

lemma unknownVar_simps:
  "Type unknownVar = OctetString" "Name unknownVar \<noteq> sysUpTimeOID"
  "Value unknownVar = VString ''router1''" "Name unknownVar = ''.1.2.3''"
  by (simp_all add: unknownVar_def sysUpTimeOID_def)

text \<open>
  Claim C10 as stated fails on a packet whose octet-string variable carries a string
  and has an OID that does not resolve: the handler logs the resolution error and
  returns; it does not panic.
\<close>

theorem octet_string_unresolved_counterexample:
  "Type unknownVar = OctetString \<and> Name unknownVar \<noteq> sysUpTimeOID \<and>
   Value unknownVar = VString ''router1'' \<and> Variables v2unknown = [unknownVar] \<and>
   handler s0 v2unknown ''192.0.2.1'' 1000 =
     Return (s0\<lparr>execCalls := [translateArgs ''.1.2.3''],
                Log := [ErrResolvingOID (ExecFailed ''exit status 2'')]\<rparr>)"
proof -
  have miss: "cache s0 ''.1.2.3'' = None" by (simp add: s0_def)
  have l: "lookup s0 ''.1.2.3'' =
             (Inl (ExecFailed ''exit status 2''), s0\<lparr>execCalls := execCalls s0 @ [translateArgs ''.1.2.3'']\<rparr>)"
    using miss snmptranslate_s0_unknown by (rule lookup_miss_err)
  have step: "walkVar unknownVar (s0, [], [''version'' \<mapsto> ''2c'', ''source'' \<mapsto> ''192.0.2.1'']) =
      Return (s0\<lparr>execCalls := [translateArgs ''.1.2.3''],
                Log := [ErrResolvingOID (ExecFailed ''exit status 2'')]\<rparr>)"
    by (simp add: walkVar_octet [OF unknownVar_simps(2,1)] unknownVar_simps(4) l Errorf_def)
       (simp add: s0_def)
  have "handler s0 v2unknown ''192.0.2.1'' 1000 =
     Return (s0\<lparr>execCalls := [translateArgs ''.1.2.3''],
                Log := [ErrResolvingOID (ExecFailed ''exit status 2'')]\<rparr>)"
    by (simp add: handler_def v1Translate_not_v1 v2unknown_def step)
  moreover have "Variables v2unknown = [unknownVar]" by (simp add: v2unknown_def)
  ultimately show ?thesis using unknownVar_simps(1,2,3) by simp
qed

end
